theory Spec2Isabelle
  imports Main "HOL-Library.Word"
begin

unbundle bit_operations_syntax

section \<open>Packed bit fields of NativeJIT (inc/NativeJIT/Packed.h)\<close>

text \<open>
  \<^verbatim>\<open>Packed<W, REST>\<close> is a family of class templates. A value holds one
  \<^verbatim>\<open>unsigned __int64 m_fields\<close>; the widths of the fields are template arguments, so they
  live in the type. The embedding keeps both: the type is a value of \<open>schema\<close>, the object a
  record of its type and its \<^verbatim>\<open>m_fields\<close>.

  Machine integers: \<^verbatim>\<open>unsigned\<close> (the template arguments \<^verbatim>\<open>W\<close>, \<^verbatim>\<open>X\<close> and
  \<^verbatim>\<open>c_fieldCount\<close>) is \<open>32 word\<close>, \<^verbatim>\<open>unsigned __int64\<close> is \<open>64 word\<close>, and the
  literal \<^verbatim>\<open>1\<close> in \<^verbatim>\<open>1 << W\<close> is an \<^verbatim>\<open>int\<close>, 32 bits in two's complement on the
  compiler the header is written for (\<^verbatim>\<open>unsigned __int64\<close> is its type). Addition,
  subtraction and multiplication wrap around, for \<^verbatim>\<open>int\<close> as for \<^verbatim>\<open>unsigned\<close>: that
  is what the compiler computes.

  C++ defines no result for a shift by the width of its left operand or more. The header
  has such shifts in three places, and they are modelled by what a build does there.
  \<^item> \<^verbatim>\<open>1 << W\<close> in \<^verbatim>\<open>Back\<close> has two constant operands inside a function body. The
    compiler folds it, with a warning, and the constant it puts in is 0; the code runs with
    that value. So does the model.
  \<^item> \<^verbatim>\<open>W << (REST::c_fieldCount * 8)\<close> initialises a \<^verbatim>\<open>static const\<close> member, where a
    constant expression is required; a shift by 32 is none, and the instantiation is an
    error.
  \<^item> \<^verbatim>\<open>m_fields << X\<close> and \<^verbatim>\<open>m_fields >> W\<close> shift a run-time value. What comes out
    depends on the build (the shift instruction of the x86 takes the count modulo 64, an
    optimiser may put 0), so the model gives no value.
\<close>

type_synonym u32 = "32 word"
type_synonym i32 = "32 word"
type_synonym u64 = "64 word"

subsection \<open>Failures\<close>

text \<open>
  Nothing in the header fails at run time with a defined error. What can go wrong is
  \<^item> a \<^verbatim>\<open>static_assert\<close> that rejects the instantiation of \<^verbatim>\<open>Push\<close>,
  \<^item> the use of a member that the selected specialization does not declare
    (\<^verbatim>\<open>Packed<0, void>\<close> has neither \<^verbatim>\<open>Create\<close> nor \<^verbatim>\<open>m_fields\<close>;
    \<^verbatim>\<open>Packed<W, void>\<close> has no \<^verbatim>\<open>Pop\<close>), and
  \<^item> a shift of an unsigned integer by its width or more, in the two places named above.
  Each is a branch of the model. \<open>NoSuchObject\<close> belongs to the object store further down:
  it is the call of a member function through an address that holds no object.
\<close>

datatype error = StaticAssertFailed | NoSuchMember | ShiftCountOutOfRange | NoSuchObject

text \<open>Sequencing of fallible steps: the first failure is the result.\<close>

definition and_then :: "error + 'a \<Rightarrow> ('a \<Rightarrow> error + 'b) \<Rightarrow> error + 'b" where
  "and_then r f = (case r of Inl e \<Rightarrow> Inl e | Inr x \<Rightarrow> f x)"

subsection \<open>The shifts of the header\<close>

text \<open>\<^verbatim>\<open>m_fields << X\<close>: an \<^verbatim>\<open>unsigned __int64\<close> shifted left by an \<^verbatim>\<open>unsigned\<close>.\<close>

definition shl_u64 :: "u64 \<Rightarrow> u32 \<Rightarrow> error + u64" where
  "shl_u64 a n = (if n < 64 then Inr (push_bit (unat n) a) else Inl ShiftCountOutOfRange)"

text \<open>\<^verbatim>\<open>m_fields >> W\<close>: an \<^verbatim>\<open>unsigned __int64\<close> shifted right by an \<^verbatim>\<open>unsigned\<close>.\<close>

definition shr_u64 :: "u64 \<Rightarrow> u32 \<Rightarrow> error + u64" where
  "shr_u64 a n = (if n < 64 then Inr (drop_bit (unat n) a) else Inl ShiftCountOutOfRange)"

text \<open>
  \<^verbatim>\<open>W << (REST::c_fieldCount * 8)\<close>: both operands are \<^verbatim>\<open>unsigned\<close>, so the shift is a
  32-bit one and drops the bits that leave the 32-bit result.
\<close>

definition shl_u32 :: "u32 \<Rightarrow> u32 \<Rightarrow> error + u32" where
  "shl_u32 a n = (if n < 32 then Inr (push_bit (unat n) a) else Inl ShiftCountOutOfRange)"

text \<open>
  \<^verbatim>\<open>1 << W\<close>: the left operand is the \<^verbatim>\<open>int\<close> literal, so the shift is a 32-bit one
  too. \<^verbatim>\<open>1 << 31\<close> is the bit pattern of \<^verbatim>\<open>INT_MIN\<close>; from 32 on the folded constant
  is 0.
\<close>

definition shl_int :: "i32 \<Rightarrow> u32 \<Rightarrow> i32" where
  "shl_int a n = (if n < 32 then push_bit (unat n) a else 0)"

subsection \<open>Types\<close>

text \<open>
  \<open>PackedVoid W\<close> is \<^verbatim>\<open>Packed<W, void>\<close> and \<open>PackedRest W REST\<close> is
  \<^verbatim>\<open>Packed<W, REST>\<close> for a class type \<^verbatim>\<open>REST\<close>. The compiler selects
  \<^item> the full specialization \<^verbatim>\<open>Packed<0, void>\<close> (the empty schema) for \<open>PackedVoid 0\<close>,
  \<^item> the partial specialization \<^verbatim>\<open>Packed<W, void>\<close> for \<open>PackedVoid W\<close>, \<open>W \<noteq> 0\<close>,
  \<^item> the primary template for \<open>PackedRest W REST\<close>.
\<close>

datatype schema = PackedVoid u32 | PackedRest u32 schema

record packed =
  ptype :: schema
  m_fields :: u64

text \<open>
  The empty schema has no data member; the \<open>m_fields\<close> of a record of that type is never
  read.
\<close>

definition Empty :: packed where
  "Empty = \<lparr>ptype = PackedVoid 0, m_fields = 0\<rparr>"

subsection \<open>Compile-time constants\<close>

fun c_fieldCount :: "schema \<Rightarrow> u32" where
  "c_fieldCount (PackedRest W REST) = 1 + c_fieldCount REST"
| "c_fieldCount (PackedVoid W) = (if W = 0 then 0 else 1)"

text \<open>
  \<^verbatim>\<open>c_fieldSizes = (W << (REST::c_fieldCount * 8)) | REST::c_fieldSizes\<close>: the shift is
  computed in \<^verbatim>\<open>unsigned\<close>, its result is then widened (zero extended) for the
  \<^verbatim>\<open>|\<close> with the 64-bit descriptor of \<^verbatim>\<open>REST\<close>.
\<close>

fun c_fieldSizes :: "schema \<Rightarrow> error + u64" where
  "c_fieldSizes (PackedRest W REST) =
     and_then (c_fieldSizes REST) (\<lambda>rest.
     and_then (shl_u32 W (c_fieldCount REST * 8)) (\<lambda>shifted.
     Inr (ucast shifted OR rest)))"
| "c_fieldSizes (PackedVoid W) = (if W = 0 then Inr 0 else Inr (ucast W))"

subsection \<open>Member functions\<close>

text \<open>
  \<^verbatim>\<open>Create\<close> is declared by the primary template and by \<^verbatim>\<open>Packed<W, void>\<close>, not by
  \<^verbatim>\<open>Packed<0, void>\<close>.
\<close>

definition Create :: "schema \<Rightarrow> u64 \<Rightarrow> error + packed" where
  "Create T v =
     (if T = PackedVoid 0 then Inl NoSuchMember
      else Inr \<lparr>ptype = T, m_fields = v\<rparr>)"

text \<open>
  The \<^verbatim>\<open>static_assert\<close> of \<^verbatim>\<open>Push\<close>. Only the primary template has one, and it adds
  the template argument \<^verbatim>\<open>X\<close> of the push to \<^verbatim>\<open>REST::c_fieldCount\<close>, in
  \<^verbatim>\<open>unsigned\<close> arithmetic.
\<close>

fun Push_static_assert :: "schema \<Rightarrow> u32 \<Rightarrow> bool" where
  "Push_static_assert (PackedRest W REST) X = (X + c_fieldCount REST \<le> 8)"
| "Push_static_assert (PackedVoid W) X = True"

text \<open>
  \<^verbatim>\<open>Push<X>(value)\<close>. On the empty schema it is static and returns
  \<^verbatim>\<open>Packed<X>::Create(value)\<close>; on the other two it returns
  \<^verbatim>\<open>Packed<X, Packed>::Create((m_fields << X) | value)\<close>.
\<close>

definition Push :: "packed \<Rightarrow> u32 \<Rightarrow> u64 \<Rightarrow> error + packed" where
  "Push p X v =
     (if \<not> Push_static_assert (ptype p) X then Inl StaticAssertFailed
      else if ptype p = PackedVoid 0 then Create (PackedVoid X) v
      else and_then (shl_u64 (m_fields p) X) (\<lambda>shifted.
           Create (PackedRest X (ptype p)) (shifted OR v)))"

text \<open>
  \<^verbatim>\<open>Pop()\<close> exists in the primary template only and returns
  \<^verbatim>\<open>REST::Create(m_fields >> W)\<close>.
\<close>

definition Pop :: "packed \<Rightarrow> error + packed" where
  "Pop p =
     (case ptype p of
        PackedVoid W \<Rightarrow> Inl NoSuchMember
      | PackedRest W REST \<Rightarrow>
          if REST = PackedVoid 0 then Inl NoSuchMember
          else and_then (shr_u64 (m_fields p) W) (\<lambda>shifted. Create REST shifted))"

text \<open>The template argument \<^verbatim>\<open>W\<close> of a type.\<close>

fun width :: "schema \<Rightarrow> u32" where
  "width (PackedVoid W) = W"
| "width (PackedRest W REST) = W"

text \<open>
  \<^verbatim>\<open>Back()\<close> returns \<^verbatim>\<open>m_fields & ((1 << W) - 1)\<close>. The mask is computed in
  \<^verbatim>\<open>int\<close> and converted to \<^verbatim>\<open>unsigned __int64\<close> for the \<^verbatim>\<open>&\<close>, which extends its
  sign. At \<open>W = 31\<close> the subtraction leaves \<^verbatim>\<open>INT_MIN\<close> downwards and wraps around to
  \<^verbatim>\<open>INT_MAX\<close>, the mask of 31 bits. From \<open>W = 32\<close> on it is \<open>0 - 1\<close>, the \<^verbatim>\<open>int\<close>
  \<open>-1\<close>, and the mask is all 64 bits.
\<close>

definition Back_mask :: "u32 \<Rightarrow> u64" where
  "Back_mask W = scast (shl_int 1 W - 1)"

definition Back :: "packed \<Rightarrow> error + u64" where
  "Back p =
     (if ptype p = PackedVoid 0 then Inl NoSuchMember
      else Inr (m_fields p AND Back_mask (width (ptype p))))"

definition GetBits :: "packed \<Rightarrow> error + u64" where
  "GetBits p = (if ptype p = PackedVoid 0 then Inl NoSuchMember else Inr (m_fields p))"

text \<open>\<^verbatim>\<open>operator unsigned __int64()\<close>.\<close>

definition operator_unsigned_int64 :: "packed \<Rightarrow> error + u64" where
  "operator_unsigned_int64 p =
     (if ptype p = PackedVoid 0 then Inl NoSuchMember else Inr (m_fields p))"

subsection \<open>Client code: composing and decoding\<close>

text \<open>
  The header is used by chaining \<^verbatim>\<open>Push\<close> calls from the empty schema and by decoding
  with \<^verbatim>\<open>Back\<close> and \<^verbatim>\<open>Pop\<close> in the reverse order. \<open>PushAll\<close> pushes the fields
  of a list, first element first; each field is the template argument and the value of one
  push. \<open>BackAll\<close> reads \<^verbatim>\<open>Back()\<close>, calls \<^verbatim>\<open>Pop()\<close> and goes on with what it
  returned, down to the one-field type, which has no \<^verbatim>\<open>Pop\<close>.
\<close>

fun PushAll :: "packed \<Rightarrow> (u32 \<times> u64) list \<Rightarrow> error + packed" where
  "PushAll p [] = Inr p"
| "PushAll p ((X, v) # fs) = and_then (Push p X v) (\<lambda>q. PushAll q fs)"

fun BackAll :: "schema \<Rightarrow> u64 \<Rightarrow> error + u64 list" where
  "BackAll (PackedVoid W) bits =
     (if W = 0 then Inr []
      else and_then (Back \<lparr>ptype = PackedVoid W, m_fields = bits\<rparr>) (\<lambda>b. Inr [b]))"
| "BackAll (PackedRest W REST) bits =
     and_then (Back \<lparr>ptype = PackedRest W REST, m_fields = bits\<rparr>) (\<lambda>b.
     and_then (Pop \<lparr>ptype = PackedRest W REST, m_fields = bits\<rparr>) (\<lambda>q.
     and_then (BackAll REST (m_fields q)) (\<lambda>bs. Inr (b # bs))))"

definition round_trip :: "(u32 \<times> u64) list \<Rightarrow> error + u64 list" where
  "round_trip fs = and_then (PushAll Empty fs) (\<lambda>p. BackAll (ptype p) (m_fields p))"

text \<open>The sum of the widths of a list of fields.\<close>

definition total_bits :: "(u32 \<times> u64) list \<Rightarrow> nat" where
  "total_bits fs = sum_list (map (\<lambda>(X, v). unat X) fs)"

subsection \<open>The member functions on an object store\<close>

text \<open>
  To speak about what a call does to its receiver, the objects are put in a store: a list
  of objects, the address of an object being its index. A member function gets the address
  \<open>this\<close> and the store and returns its result, or the failure, with the store after the
  call. A call that fails makes no object: its store is the one before the call.

  \<^verbatim>\<open>Create\<close> declares the local \<^verbatim>\<open>Packed result\<close>, a new object, and assigns
  \<^verbatim>\<open>result.m_fields = value\<close>; this is the only assignment to an \<^verbatim>\<open>m_fields\<close> in
  the header. The local is not initialised by its declaration; the model gives it 0 until
  the assignment. The object returned is the one at the address returned.
\<close>

type_synonym store = "packed list"

definition object_at :: "store \<Rightarrow> nat \<Rightarrow> error + packed" where
  "object_at s a = (if a < length s then Inr (s ! a) else Inl NoSuchObject)"

definition new_local :: "schema \<Rightarrow> store \<Rightarrow> nat \<times> store" where
  "new_local T s = (length s, s @ [\<lparr>ptype = T, m_fields = 0\<rparr>])"

definition assign_m_fields :: "nat \<Rightarrow> u64 \<Rightarrow> store \<Rightarrow> store" where
  "assign_m_fields a v s = s[a := (s ! a)\<lparr>m_fields := v\<rparr>]"

definition Create_st :: "schema \<Rightarrow> u64 \<Rightarrow> store \<Rightarrow> (error + nat) \<times> store" where
  "Create_st T v s =
     (if T = PackedVoid 0 then (Inl NoSuchMember, s)
      else (case new_local T s of (result, s1) \<Rightarrow>
              (Inr result, assign_m_fields result v s1)))"

definition Push_st :: "nat \<Rightarrow> u32 \<Rightarrow> u64 \<Rightarrow> store \<Rightarrow> (error + nat) \<times> store" where
  "Push_st this X v s =
     (case object_at s this of
        Inl e \<Rightarrow> (Inl e, s)
      | Inr self \<Rightarrow>
          if \<not> Push_static_assert (ptype self) X then (Inl StaticAssertFailed, s)
          else if ptype self = PackedVoid 0 then Create_st (PackedVoid X) v s
          else (case shl_u64 (m_fields self) X of
                  Inl e \<Rightarrow> (Inl e, s)
                | Inr shifted \<Rightarrow> Create_st (PackedRest X (ptype self)) (shifted OR v) s))"

definition Pop_st :: "nat \<Rightarrow> store \<Rightarrow> (error + nat) \<times> store" where
  "Pop_st this s =
     (case object_at s this of
        Inl e \<Rightarrow> (Inl e, s)
      | Inr self \<Rightarrow>
          (case ptype self of
             PackedVoid W \<Rightarrow> (Inl NoSuchMember, s)
           | PackedRest W REST \<Rightarrow>
               if REST = PackedVoid 0 then (Inl NoSuchMember, s)
               else (case shr_u64 (m_fields self) W of
                       Inl e \<Rightarrow> (Inl e, s)
                     | Inr shifted \<Rightarrow> Create_st REST shifted s)))"

definition Back_st :: "nat \<Rightarrow> store \<Rightarrow> (error + u64) \<times> store" where
  "Back_st this s = (and_then (object_at s this) Back, s)"

definition GetBits_st :: "nat \<Rightarrow> store \<Rightarrow> (error + u64) \<times> store" where
  "GetBits_st this s = (and_then (object_at s this) GetBits, s)"

definition operator_unsigned_int64_st :: "nat \<Rightarrow> store \<Rightarrow> (error + u64) \<times> store" where
  "operator_unsigned_int64_st this s = (and_then (object_at s this) operator_unsigned_int64, s)"

text \<open>
  One call of a member function on the object at \<open>this\<close>. What a call returns is the
  address of a new object (\<^verbatim>\<open>Push\<close>, \<^verbatim>\<open>Pop\<close>) or an integer.
\<close>

datatype call = CallPush u32 u64 | CallPop | CallBack | CallGetBits | CallConversion

datatype returned = Object nat | Bits u64

fun invoke :: "call \<Rightarrow> nat \<Rightarrow> store \<Rightarrow> (error + returned) \<times> store" where
  "invoke (CallPush X v) this s =
     (case Push_st this X v s of (r, s') \<Rightarrow> (and_then r (\<lambda>a. Inr (Object a)), s'))"
| "invoke CallPop this s =
     (case Pop_st this s of (r, s') \<Rightarrow> (and_then r (\<lambda>a. Inr (Object a)), s'))"
| "invoke CallBack this s =
     (case Back_st this s of (r, s') \<Rightarrow> (and_then r (\<lambda>b. Inr (Bits b)), s'))"
| "invoke CallGetBits this s =
     (case GetBits_st this s of (r, s') \<Rightarrow> (and_then r (\<lambda>b. Inr (Bits b)), s'))"
| "invoke CallConversion this s =
     (case operator_unsigned_int64_st this s of (r, s') \<Rightarrow>
        (and_then r (\<lambda>b. Inr (Bits b)), s'))"

text \<open>
  When a call has a result in the model: it compiles, and where it shifts
  \<^verbatim>\<open>m_fields\<close> the count is below 64.
\<close>

fun call_defined :: "call \<Rightarrow> packed \<Rightarrow> bool" where
  "call_defined (CallPush X v) p =
     (Push_static_assert (ptype p) X
      \<and> (if ptype p = PackedVoid 0 then X \<noteq> 0 else X < 64))"
| "call_defined CallPop p =
     (case ptype p of
        PackedVoid W \<Rightarrow> False
      | PackedRest W REST \<Rightarrow> REST \<noteq> PackedVoid 0 \<and> W < 64)"
| "call_defined CallBack p = (ptype p \<noteq> PackedVoid 0)"
| "call_defined CallGetBits p = (ptype p \<noteq> PackedVoid 0)"
| "call_defined CallConversion p = (ptype p \<noteq> PackedVoid 0)"

text \<open>
  The outcome of a call that makes an object or fails: no object and the store as it was,
  or one object more, at the address returned, after the objects that were there.
\<close>

definition store_extended :: "store \<Rightarrow> (error + nat) \<times> store \<Rightarrow> bool" where
  "store_extended s out =
     (case out of
        (Inl e, s') \<Rightarrow> s' = s
      | (Inr a, s') \<Rightarrow> a = length s \<and> length s' = Suc (length s) \<and> take (length s) s' = s)"

section \<open>Properties\<close>

subsection \<open>Auxiliary facts\<close>

lemma and_then_Inr [simp]: "and_then (Inr x) f = f x"
  by (simp add: and_then_def)

lemma and_then_Inl [simp]: "and_then (Inl e) f = Inl e"
  by (simp add: and_then_def)

text \<open>A word that is small as a number has no bit at or above the bound, and conversely.\<close>

lemma unat_less_fits: "unat v < 2 ^ n \<Longrightarrow> take_bit n v = v" for v :: "'a::len word"
  by (metis take_bit_nat_eq_self_iff unsigned_take_bit_eq word_eq_iff_unsigned)

lemma bit_fits: "take_bit n w = w \<Longrightarrow> bit w k \<Longrightarrow> k < n" for w :: "'a::len word"
  by (metis bit_take_bit_iff)

lemma word_of_nat_unat_mod: "word_of_nat (unat v mod 2 ^ n) = take_bit n (v :: u64)"
  by (metis take_bit_eq_mod unat_mod_distrib unsigned_take_bit_eq word_arith_nat_mod)

lemma unat_drop_bit_u64: "unat (drop_bit n (b :: u64)) = unat b div 2 ^ n"
  unfolding unat_drop_bit_eq by (simp add: drop_bit_eq_div)

lemma unat_push_bit_u64: "unat (push_bit n (b :: u64)) = unat b * 2 ^ n mod 2 ^ 64"
  unfolding unsigned_push_bit_eq by (simp add: take_bit_eq_mod push_bit_eq_mult)

text \<open>
  Fields that fit: the low field is read back by the mask, the higher ones by the shift,
  and the whole fits the sum of the widths.
\<close>

lemma low_field: "take_bit n v = v \<Longrightarrow> (push_bit n b OR v) AND mask n = v" for v :: u64
  by (simp add: take_bit_push_bit flip: take_bit_eq_mask)

lemma high_fields:
  fixes b v :: u64
  assumes v: "take_bit n v = v" and b: "take_bit m b = b" and le: "m + n \<le> 64"
  shows "drop_bit n (push_bit n b OR v) = b"
proof (rule bit_word_eqI)
  fix k
  assume "k < LENGTH(64)"
  have "\<not> bit v (n + k)"
    using bit_fits [OF v, of "n + k"] by auto
  moreover have "bit b k \<Longrightarrow> n + k < 64"
    using bit_fits [OF b, of k] le by auto
  ultimately show "bit (drop_bit n (push_bit n b OR v)) k = bit b k"
    by (auto simp: bit_simps)
qed

lemma pushed_fits:
  fixes b v :: u64
  assumes v: "take_bit n v = v" and b: "take_bit m b = b"
  shows "take_bit (m + n) (push_bit n b OR v) = push_bit n b OR v"
proof -
  have "take_bit (m + n) (take_bit n v) = take_bit n v"
    by (simp only: take_bit_take_bit) simp
  then have "take_bit (m + n) v = v"
    by (simp only: v)
  then show ?thesis
    by (simp add: take_bit_push_bit b)
qed

subsection \<open>The mask of Back\<close>

lemma scast_mask_small: "n < 32 \<Longrightarrow> (scast (mask n :: i32) :: u64) = mask n"
  by (rule bit_word_eqI) (auto simp: bit_simps)

text \<open>For widths below 32 the mask of \<^verbatim>\<open>Back\<close> is the one of the declared width.\<close>

lemma Back_mask_small:
  assumes "W < 32"
  shows "Back_mask W = mask (unat W)"
proof -
  from assms have n: "unat W < 32"
    by (simp add: word_less_nat_alt)
  have "push_bit (unat W) (1 :: i32) - 1 = mask (unat W)"
    by (simp add: mask_eq_exp_minus_1 push_bit_eq_mult)
  with assms n show ?thesis
    by (simp only: Back_mask_def shl_int_def if_True scast_mask_small)
qed

text \<open>
  From 32 on the mask is all ones, and \<^verbatim>\<open>Back()\<close> returns the raw bits as they are.
\<close>

lemma Back_mask_wide:
  assumes "32 \<le> W"
  shows "Back_mask W = - 1"
proof -
  from assms have "\<not> W < 32"
    by simp
  then show ?thesis
    by (simp add: Back_mask_def shl_int_def)
qed

lemma Back_wide:
  assumes "32 \<le> width (ptype p)"
  shows "Back p = Inr (m_fields p)"
proof -
  from assms have "ptype p \<noteq> PackedVoid 0"
    by auto
  with assms show ?thesis
    by (simp add: Back_def Back_mask_wide)
qed

text \<open>
  That is not the mask of the declared width, and no \<^verbatim>\<open>int\<close> would be: converted to
  64 bits, an \<^verbatim>\<open>int\<close> is not the mask of a width from 32 to 63, since bits 31 to 63 of a
  sign-extended \<^verbatim>\<open>int\<close> are equal and those of the mask are not.
\<close>

lemma scast_not_wide_mask:
  assumes "32 \<le> n" and "n < 64"
  shows "(scast (m :: i32) :: u64) \<noteq> mask n"
proof
  assume eq: "(scast m :: u64) = mask n"
  have "bit (scast m :: u64) 31 = bit (scast m :: u64) 63"
    by (simp add: bit_simps)
  moreover have "bit (mask n :: u64) 31"
    using assms by (simp add: bit_simps)
  moreover have "\<not> bit (mask n :: u64) 63"
    using assms by (simp add: bit_simps)
  ultimately show False
    using eq by simp
qed

text \<open>
  A first field that fits its width is read back all the same, whatever the width: below
  32 bits by the mask of the width, from 32 bits on because nothing is masked.
\<close>

lemma Back_of_first_field:
  assumes "W \<noteq> 0" and "unat v < 2 ^ unat W"
  shows "and_then (Push Empty W v) Back = Inr v"
proof (cases "W < 32")
  case True
  from assms(2) have "take_bit (unat W) v = v"
    by (rule unat_less_fits)
  then have "v AND mask (unat W) = v"
    by (simp flip: take_bit_eq_mask)
  with assms(1) show ?thesis
    by (simp add: Push_def Empty_def Create_def Back_def Back_mask_small [OF True])
next
  case False
  then have "32 \<le> W"
    by simp
  with assms(1) show ?thesis
    by (simp add: Push_def Empty_def Create_def Back_def Back_mask_wide)
qed


subsection \<open>Push\<close>

text \<open>
  A push that passes the \<^verbatim>\<open>static_assert\<close> and whose shift is defined returns a value;
  on the empty schema only \<^verbatim>\<open>Push<0>\<close> is refused, which would have to call the
  \<^verbatim>\<open>Create\<close> that \<^verbatim>\<open>Packed<0, void>\<close> does not have.
\<close>

lemma Push_accepted:
  assumes "Push_static_assert (ptype p) X"
    and "if ptype p = PackedVoid 0 then X \<noteq> 0 else X < 64"
  shows "Push p X v =
    Inr \<lparr>ptype = (if ptype p = PackedVoid 0 then PackedVoid X else PackedRest X (ptype p)),
         m_fields = (if ptype p = PackedVoid 0 then v
                     else push_bit (unat X) (m_fields p) OR v)\<rparr>"
  using assms by (simp add: Push_def Create_def shl_u64_def split: if_splits)

text \<open>
  Claim C3, as the code has it. For every value \<open>p\<close> of a type other than the empty schema,
  every \<open>X < 64\<close> for which \<^verbatim>\<open>Push<X>\<close> passes the \<^verbatim>\<open>static_assert\<close> and every
  64-bit \<open>v\<close>, whether it fits in \<open>X\<close> bits or not, \<^verbatim>\<open>p.Push<X>(v)\<close> returns the value
  of type \<^verbatim>\<open>Packed<X, P>\<close> whose raw bits are \<^verbatim>\<open>(m_fields << X) | v\<close>, the shift
  taken modulo \<open>2 ^ 64\<close> and \<open>v\<close> neither masked nor checked. On the empty schema
  \<^verbatim>\<open>Push<X>(v)\<close>, \<open>X \<noteq> 0\<close>, returns the value of type \<^verbatim>\<open>Packed<X, void>\<close> whose raw
  bits are \<open>v\<close>.
\<close>

theorem Push_raw_bits:
  assumes "Push_static_assert (ptype p) X"
    and "if ptype p = PackedVoid 0 then X \<noteq> 0 else X < 64"
  shows "Push p X v =
    Inr \<lparr>ptype = (if ptype p = PackedVoid 0 then PackedVoid X else PackedRest X (ptype p)),
         m_fields = (if ptype p = PackedVoid 0 then v
                     else push_bit (unat X) (m_fields p) OR v)\<rparr>
    \<and> unat (push_bit (unat X) (m_fields p)) = unat (m_fields p) * 2 ^ unat X mod 2 ^ 64"
  using assms by (simp only: Push_accepted unat_push_bit_u64 simp_thms)

text \<open>
  \<^verbatim>\<open>Empty.Push<3>(9)\<close> has the raw bits 9. Pushing 255 as a field of four bits onto the
  three-bit field 5 gives the raw bits 255: the 5 is gone.
\<close>

theorem Push_raw_bits_witness:
  "Push_static_assert (ptype Empty) 3
   \<and> (if ptype Empty = PackedVoid 0 then (3 :: u32) \<noteq> 0 else (3 :: u32) < 64)
   \<and> Push Empty 3 9 = Inr \<lparr>ptype = PackedVoid 3, m_fields = 9\<rparr>
   \<and> Push_static_assert (ptype \<lparr>ptype = PackedVoid 3, m_fields = 5\<rparr>) 4
   \<and> (if ptype \<lparr>ptype = PackedVoid 3, m_fields = 5\<rparr> = PackedVoid 0 then (4 :: u32) \<noteq> 0
       else (4 :: u32) < 64)
   \<and> Push \<lparr>ptype = PackedVoid 3, m_fields = 5\<rparr> 4 255
       = Inr \<lparr>ptype = PackedRest 4 (PackedVoid 3), m_fields = 255\<rparr>"
  using Push_raw_bits [of Empty 3 9]
    Push_raw_bits [of "\<lparr>ptype = PackedVoid 3, m_fields = 5\<rparr>" 4 255]
  by (simp add: Empty_def)

text \<open>
  For every width the claim fails: \<^verbatim>\<open>Packed<8>::Create(1).Push<64>(0)\<close> has no
  \<^verbatim>\<open>static_assert\<close> in its way and shifts a 64-bit integer by 64, which has no defined
  result.
\<close>

theorem Push_shift_64_counterexample:
  "Push \<lparr>ptype = PackedVoid 8, m_fields = 1\<rparr> 64 0 = Inl ShiftCountOutOfRange"
  by (simp add: Push_def shl_u64_def)

subsection \<open>Pop\<close>

text \<open>
  Claim C4, as the code has it. \<^verbatim>\<open>Pop()\<close> of a value of type \<^verbatim>\<open>Packed<W, REST>\<close> with
  at least two fields and \<open>W < 64\<close> returns \<^verbatim>\<open>REST::Create(m_fields >> W)\<close>: a value of
  type \<^verbatim>\<open>REST\<close> whose raw bits are those of the receiver without their lowest \<open>W\<close>
  bits, that is the receiver's bits divided by \<open>2 ^ W\<close>.
\<close>

theorem Pop_raw_bits:
  assumes "ptype p = PackedRest W REST" and "2 \<le> c_fieldCount (ptype p)" and "W < 64"
  shows "Pop p = Create REST (drop_bit (unat W) (m_fields p))
       \<and> Pop p = Inr \<lparr>ptype = REST, m_fields = drop_bit (unat W) (m_fields p)\<rparr>
       \<and> unat (drop_bit (unat W) (m_fields p)) = unat (m_fields p) div 2 ^ unat W"
proof -
  from assms(1,2) have "REST \<noteq> PackedVoid 0"
    by (auto simp: word_le_nat_alt)
  with assms(1,3) show ?thesis
    by (simp add: Pop_def Create_def shr_u64_def unat_drop_bit_u64 del: drop_bit_eq_div)
qed

text \<open>The scenario of the specification: 89 is 5 in three bits below 9 in four.\<close>

theorem Pop_raw_bits_witness:
  "ptype \<lparr>ptype = PackedRest 4 (PackedVoid 3), m_fields = 89\<rparr> = PackedRest 4 (PackedVoid 3)
   \<and> 2 \<le> c_fieldCount (ptype \<lparr>ptype = PackedRest 4 (PackedVoid 3), m_fields = 89\<rparr>)
   \<and> (4 :: u32) < 64
   \<and> Pop \<lparr>ptype = PackedRest 4 (PackedVoid 3), m_fields = 89\<rparr>
       = Inr \<lparr>ptype = PackedVoid 3, m_fields = 5\<rparr>"
  using Pop_raw_bits [of "\<lparr>ptype = PackedRest 4 (PackedVoid 3), m_fields = 89\<rparr>" 4 "PackedVoid 3"]
  by (simp add: Create_def)

text \<open>
  Without the bound on \<open>W\<close> the claim fails: \<^verbatim>\<open>Packed<64, Packed<8>>\<close> has two
  fields, and \<^verbatim>\<open>Packed<64, Packed<8>>::Create(1).Pop()\<close> shifts a 64-bit integer by 64,
  which has no defined result.
\<close>

theorem Pop_shift_64_counterexample:
  "c_fieldCount (PackedRest 64 (PackedVoid 8)) = 2
   \<and> Pop \<lparr>ptype = PackedRest 64 (PackedVoid 8), m_fields = 1\<rparr> = Inl ShiftCountOutOfRange"
  by (simp add: Pop_def shr_u64_def)

subsection \<open>Round trip\<close>

lemma PushAll_snoc:
  "PushAll p (fs @ [(X, v)]) = and_then (PushAll p fs) (\<lambda>q. Push q X v)"
proof (induction fs arbitrary: p)
  case Nil
  show ?case
    by (simp add: and_then_def split: sum.splits)
next
  case (Cons f fs)
  then show ?case
    by (cases f) (simp add: and_then_def split: sum.splits)
qed

text \<open>
  One more field of 1 to 31 bits on a value whose fields leave room for it: \<^verbatim>\<open>Back()\<close>
  reads the new field and \<^verbatim>\<open>Pop()\<close> gives the old value back.
\<close>

lemma Back_Pop_after_Push:
  assumes ne: "ptype p \<noteq> PackedVoid 0"
    and pushed: "Push p X v = Inr q"
    and X: "1 \<le> X" "X \<le> 31"
    and v: "take_bit (unat X) v = v"
    and b: "take_bit m (m_fields p) = m_fields p"
    and le: "m + unat X \<le> 64"
  shows "Back q = Inr v \<and> Pop q = Inr p"
proof -
  from X(2) have lt32: "X < 32" and lt64: "X < 64"
    by (simp_all add: word_le_nat_alt word_less_nat_alt)
  from pushed have acc: "Push_static_assert (ptype p) X"
    by (simp add: Push_def split: if_splits)
  from ne lt64 have "if ptype p = PackedVoid 0 then X \<noteq> 0 else X < 64"
    by simp
  with acc have "Push p X v =
    Inr \<lparr>ptype = (if ptype p = PackedVoid 0 then PackedVoid X else PackedRest X (ptype p)),
         m_fields = (if ptype p = PackedVoid 0 then v
                     else push_bit (unat X) (m_fields p) OR v)\<rparr>"
    by (rule Push_accepted)
  with pushed ne
  have q: "q = \<lparr>ptype = PackedRest X (ptype p), m_fields = push_bit (unat X) (m_fields p) OR v\<rparr>"
    by simp
  have "Back q = Inr v"
    by (simp add: q Back_def Back_mask_small [OF lt32] low_field [OF v])
  moreover have "Pop q = Inr p"
    using ne lt64
    by (simp add: q Pop_def shr_u64_def Create_def high_fields [OF v b le] del: drop_bit_or)
  ultimately show ?thesis
    by simp
qed

lemma BackAll_after_Push:
  assumes ne: "ptype p \<noteq> PackedVoid 0"
    and pushed: "Push p X v = Inr q"
    and X: "1 \<le> X" "X \<le> 31"
    and v: "take_bit (unat X) v = v"
    and b: "take_bit m (m_fields p) = m_fields p"
    and le: "m + unat X \<le> 64"
  shows "BackAll (ptype q) (m_fields q)
       = and_then (BackAll (ptype p) (m_fields p)) (\<lambda>bs. Inr (v # bs))"
proof -
  from pushed ne have T: "ptype q = PackedRest X (ptype p)"
    by (auto simp: Push_def Create_def shl_u64_def and_then_def split: if_splits sum.splits)
  then have q: "\<lparr>ptype = PackedRest X (ptype p), m_fields = m_fields q\<rparr> = q"
    by simp
  from Back_Pop_after_Push [OF assms] show ?thesis
    by (simp add: T q)
qed

lemma BackAll_after_first_Push:
  assumes e: "ptype p = PackedVoid 0"
    and pushed: "Push p X v = Inr q"
    and X: "1 \<le> X" "X \<le> 31"
    and v: "take_bit (unat X) v = v"
  shows "BackAll (ptype q) (m_fields q) = Inr [v]" and "ptype q \<noteq> PackedVoid 0"
    and "m_fields q = v"
proof -
  from X(1) have nz: "X \<noteq> 0"
    by auto
  from X(2) have lt32: "X < 32"
    by (simp add: word_le_nat_alt word_less_nat_alt)
  from pushed e nz have q: "q = \<lparr>ptype = PackedVoid X, m_fields = v\<rparr>"
    by (simp add: Push_def Create_def)
  have "v AND mask (unat X) = v"
    using v by (simp flip: take_bit_eq_mask)
  then show "BackAll (ptype q) (m_fields q) = Inr [v]"
    using nz by (simp add: q Back_def Back_mask_small [OF lt32])
  from nz show "ptype q \<noteq> PackedVoid 0" and "m_fields q = v"
    by (simp_all add: q)
qed

lemma round_trip_invariant:
  assumes "\<forall>(X, v) \<in> set fs. 1 \<le> X \<and> X \<le> 31 \<and> unat v < 2 ^ unat X"
    and "total_bits fs \<le> 64"
    and "PushAll p0 fs = Inr p"
    and "ptype p0 = PackedVoid 0" and "m_fields p0 = 0"
  shows "BackAll (ptype p) (m_fields p) = Inr (rev (map snd fs))
       \<and> take_bit (total_bits fs) (m_fields p) = m_fields p
       \<and> (ptype p = PackedVoid 0 \<longleftrightarrow> fs = [])"
  using assms(1-3)
proof (induction fs arbitrary: p rule: rev_induct)
  case Nil
  then show ?case
    using assms(4,5) by (simp add: total_bits_def)
next
  case (snoc f fs)
  obtain X v where f: "f = (X, v)"
    by (cases f)
  from snoc.prems(1) f have X: "1 \<le> X" "X \<le> 31" and v: "unat v < 2 ^ unat X"
    by auto
  from v have vfit: "take_bit (unat X) v = v"
    by (rule unat_less_fits)
  from snoc.prems(2) f have tot: "total_bits fs + unat X \<le> 64"
    by (simp add: total_bits_def)
  from snoc.prems(3) f obtain p'
    where p': "PushAll p0 fs = Inr p'" and pushed: "Push p' X v = Inr p"
    by (auto simp: PushAll_snoc and_then_def split: sum.splits)
  from snoc.prems(1) tot have "BackAll (ptype p') (m_fields p') = Inr (rev (map snd fs))
       \<and> take_bit (total_bits fs) (m_fields p') = m_fields p'
       \<and> (ptype p' = PackedVoid 0 \<longleftrightarrow> fs = [])"
    by (intro snoc.IH [OF _ _ p']) auto
  then have IH1: "BackAll (ptype p') (m_fields p') = Inr (rev (map snd fs))"
    and IH2: "take_bit (total_bits fs) (m_fields p') = m_fields p'"
    and IH3: "ptype p' = PackedVoid 0 \<longleftrightarrow> fs = []"
    by simp_all
  have tb: "total_bits (fs @ [f]) = total_bits fs + unat X"
    by (simp add: total_bits_def f)
  show ?case
  proof (cases "fs = []")
    case True
    with IH3 have e: "ptype p' = PackedVoid 0"
      by simp
    from BackAll_after_first_Push [OF e pushed X vfit] True f vfit show ?thesis
      by (simp add: total_bits_def)
  next
    case False
    with IH3 have ne: "ptype p' \<noteq> PackedVoid 0"
      by simp
    from pushed ne X(2) have q: "ptype p = PackedRest X (ptype p')"
      "m_fields p = push_bit (unat X) (m_fields p') OR v"
      by (auto simp: Push_def Create_def shl_u64_def and_then_def split: if_splits sum.splits)
    have "BackAll (ptype p) (m_fields p) = Inr (rev (map snd (fs @ [f])))"
      using BackAll_after_Push [OF ne pushed X vfit IH2 tot] by (simp add: IH1 f)
    moreover have "take_bit (total_bits (fs @ [f])) (m_fields p) = m_fields p"
      unfolding tb q by (rule pushed_fits [OF vfit IH2])
    ultimately show ?thesis
      by (simp add: q)
  qed
qed

text \<open>
  Where the round trip holds: the pushes, in order from the empty schema, are all accepted
  by the compiler, every width is between 1 and 31, every value is below \<open>2\<close> to its
  width and the widths sum to at most 64. Then decoding what was pushed with \<^verbatim>\<open>Back()\<close>
  and \<^verbatim>\<open>Pop()\<close> gives the values back, each as it was, the last pushed first.
\<close>

lemma round_trip_narrow_fields:
  assumes "\<forall>(X, v) \<in> set fs. 1 \<le> X \<and> X \<le> 31 \<and> unat v < 2 ^ unat X"
    and "total_bits fs \<le> 64"
    and "PushAll Empty fs = Inr p"
  shows "round_trip fs = Inr (rev (map snd fs))"
  using round_trip_invariant [OF assms] assms(3)
  by (simp add: round_trip_def Empty_def)

text \<open>The scenario of the specification, and the same with a third field of seven bits.\<close>

lemma round_trip_scenario:
  "round_trip [(3, 5), (4, 9)] = Inr [9, 5]"
  "round_trip [(3, 5), (4, 9), (7, 100)] = Inr [100, 9, 5]"
  by (simp_all add: round_trip_def Push_def Empty_def Create_def Back_def Back_mask_def Pop_def
      shl_int_def shl_u64_def shr_u64_def)

text \<open>
  The compiler does not accept every sequence. The tenth of ten fields of one bit is
  refused by the \<^verbatim>\<open>static_assert\<close>, and so is a third field of eight bits, where the
  assertion adds the width 8 to the field count 1 of \<^verbatim>\<open>REST\<close>.
\<close>

lemma round_trip_refused:
  "round_trip [(1, 1), (1, 0), (1, 1), (1, 0), (1, 1), (1, 0), (1, 1), (1, 0), (1, 1), (1, 0)]
     = Inl StaticAssertFailed"
  "round_trip [(3, 5), (4, 9), (8, 200)] = Inl StaticAssertFailed"
  by (simp_all add: round_trip_def Push_def Empty_def Create_def shl_u64_def)

text \<open>
  Claim C2 says that every sequence of fields, each value below \<open>2\<close> to its width and the
  widths summing to at most 64, comes back through \<^verbatim>\<open>Back()\<close> and \<^verbatim>\<open>Pop()\<close>. Two
  fields of 32 bits with the values 1 and 2 are such a sequence, and both pushes compile.
  The raw bits are \<open>2 ^ 32 + 2\<close>. The first \<^verbatim>\<open>Back()\<close> should return 2, the value pushed
  last; its mask is all ones and it returns 4294967298. \<^verbatim>\<open>Pop()\<close> and the second
  \<^verbatim>\<open>Back()\<close> return 1, as they should.
\<close>

theorem round_trip_two_wide_fields:
  "total_bits [(32, 1), (32, 2)] = 64
   \<and> PushAll Empty [(32, 1), (32, 2)]
       = Inr \<lparr>ptype = PackedRest 32 (PackedVoid 32), m_fields = 4294967298\<rparr>
   \<and> round_trip [(32, 1), (32, 2)] = Inr [4294967298, 1]
   \<and> round_trip [(32, 1), (32, 2)] \<noteq> Inr (rev (map snd [(32, 1), (32, 2)]))"
  by (simp add: total_bits_def round_trip_def Push_def Empty_def Create_def Back_def
      Back_mask_def Pop_def shl_int_def shl_u64_def shr_u64_def)

text \<open>A field of 3 bits below one of 32 is lost to \<^verbatim>\<open>Back()\<close> in the same way.\<close>

lemma round_trip_wide_last_field:
  "round_trip [(3, 5), (32, 7)] = Inr [21474836487, 5]"
  by (simp add: round_trip_def Push_def Empty_def Create_def Back_def Back_mask_def Pop_def
      shl_int_def shl_u64_def shr_u64_def)

subsection \<open>The compile-time assertion\<close>

text \<open>Every push that returns a value adds one field.\<close>

lemma Push_fieldCount:
  assumes "Push p X v = Inr q"
  shows "c_fieldCount (ptype q) = c_fieldCount (ptype p) + 1"
  using assms
  by (auto simp: Push_def Create_def shl_u64_def and_then_def split: if_splits sum.splits)

text \<open>
  Claim C5 says that a push is accepted exactly when the number of fields stays at most 8.
  The assertion of the code is \<^verbatim>\<open>X + REST::c_fieldCount <= 8\<close>, with the width \<open>X\<close> of
  the new field where the claim counts one field. So \<^verbatim>\<open>Push<9>\<close> on the two fields
  \<^verbatim>\<open>Packed<4, Packed<3>>\<close> is refused although it would make three fields, and nine
  pushes of one-bit fields are all accepted and make nine fields.
\<close>

theorem Push_static_assert_failing_inputs:
  "c_fieldCount (PackedRest 4 (PackedVoid 3)) = 2
   \<and> Push \<lparr>ptype = PackedRest 4 (PackedVoid 3), m_fields = 89\<rparr> 9 0 = Inl StaticAssertFailed
   \<and> and_then
        (PushAll Empty [(1, 1), (1, 0), (1, 1), (1, 0), (1, 1), (1, 0), (1, 1), (1, 0), (1, 1)])
        (\<lambda>q. Inr (c_fieldCount (ptype q))) = Inr 9"
  by (simp add: Push_def Empty_def Create_def shl_u64_def)

subsection \<open>The descriptor of the field sizes\<close>

lemma ucast_u32_fits: "take_bit 32 (ucast (shifted :: u32) :: u64) = ucast shifted"
  by (rule bit_word_eqI) (auto simp: bit_simps dest: bit_imp_le_length)

lemma shl_u32_slot:
  assumes "W < 256" and "n \<le> 24"
  shows "(ucast (push_bit n (W :: u32)) :: u64) = push_bit n (ucast W)"
proof (rule bit_word_eqI)
  fix k
  assume "k < LENGTH(64)"
  from assms(1) have "unat W < 2 ^ 8"
    by (simp add: word_less_nat_alt)
  then have "take_bit 8 W = W"
    by (rule unat_less_fits)
  then have "bit W j \<Longrightarrow> j < 8" for j
    by (metis bit_take_bit_iff)
  then have "bit W (k - n) \<Longrightarrow> k - n < 8"
    by blast
  with assms(2) show "bit (ucast (push_bit n W) :: u64) k = bit (push_bit n (ucast W :: u64)) k"
    by (auto simp: bit_simps)
qed

text \<open>
  Up to four fields of widths below 256 the 32-bit shift loses nothing, and the descriptor
  is the one with a slot of 8 bits for each field.
\<close>

lemma c_fieldSizes_slot:
  assumes "W < 256" and "c_fieldCount REST \<le> 3" and "c_fieldSizes REST = Inr rest"
  shows "c_fieldSizes (PackedRest W REST)
       = Inr (push_bit (8 * unat (c_fieldCount REST)) (ucast W) OR rest)"
proof -
  from assms(2) have n: "unat (c_fieldCount REST) \<le> 3"
    by (simp add: word_le_nat_alt)
  then have u: "unat (c_fieldCount REST * 8) = 8 * unat (c_fieldCount REST)"
    by (simp add: unat_word_ariths)
  with n have lt: "c_fieldCount REST * 8 < 32"
    by (simp add: word_less_nat_alt)
  from n have "8 * unat (c_fieldCount REST) \<le> 24"
    by simp
  with assms(1) have "(ucast (push_bit (8 * unat (c_fieldCount REST)) W) :: u64)
      = push_bit (8 * unat (c_fieldCount REST)) (ucast W)"
    by (rule shl_u32_slot)
  with lt u show ?thesis
    by (simp add: assms(3) shl_u32_def)
qed

lemma c_fieldSizes_four_fields:
  "c_fieldSizes (PackedRest 2 (PackedRest 3 (PackedRest 4 (PackedVoid 5)))) = Inr 0x02030405"
  by (simp add: shl_u32_def)

text \<open>
  With a fifth field the shift count is 32. Whatever 32-bit value a compiler makes of the
  shift, the descriptor stays below \<open>2 ^ 32\<close> when that of \<^verbatim>\<open>REST\<close> is: the slot of the
  fifth field is empty.
\<close>

lemma c_fieldSizes_32_bits:
  assumes "take_bit 32 rest = rest"
  shows "take_bit 32 (ucast (shifted :: u32) OR rest :: u64) = ucast shifted OR rest"
  by (simp add: ucast_u32_fits assms)

text \<open>The same for every type of five to eight fields.\<close>

lemma c_fieldSizes_error: "c_fieldSizes T = Inl e \<Longrightarrow> e = ShiftCountOutOfRange"
proof (induction T arbitrary: e)
  case (PackedVoid W)
  then show ?case
    by (simp split: if_splits)
next
  case (PackedRest W REST)
  then show ?case
    by (auto simp: and_then_def shl_u32_def split: sum.splits if_splits)
qed

lemma c_fieldSizes_beyond_four:
  assumes "4 \<le> c_fieldCount REST" and "c_fieldCount REST \<le> 7"
  shows "c_fieldSizes (PackedRest W REST) = Inl ShiftCountOutOfRange"
proof -
  from assms have n: "4 \<le> unat (c_fieldCount REST)" "unat (c_fieldCount REST) \<le> 7"
    by (simp_all add: word_le_nat_alt)
  then have "unat (c_fieldCount REST * 8) = 8 * unat (c_fieldCount REST)"
    by (simp add: unat_word_ariths)
  with n have "\<not> c_fieldCount REST * 8 < 32"
    by (simp add: word_less_nat_alt)
  then show ?thesis
    by (cases "c_fieldSizes REST") (auto simp: shl_u32_def dest: c_fieldSizes_error)
qed

text \<open>
  Claim C6 says that the descriptor is \<^verbatim>\<open>(W << (REST::c_fieldCount * 8)) | c_fieldSizes\<close>
  of \<^verbatim>\<open>REST\<close> computed in 64-bit arithmetic, a slot of 8 bits for each field. The code
  shifts the \<^verbatim>\<open>unsigned\<close> \<open>W\<close>, in 32 bits. For the five fields of widths 5, 4, 3, 2
  and 1 (the last pushed) the claim gives \<open>0x0102030405\<close>; the code shifts a 32-bit integer
  by 32, which has no defined result.
\<close>

theorem c_fieldSizes_five_fields:
  "c_fieldCount (PackedRest 2 (PackedRest 3 (PackedRest 4 (PackedVoid 5)))) * 8 = 32
   \<and> c_fieldSizes (PackedRest 1 (PackedRest 2 (PackedRest 3 (PackedRest 4 (PackedVoid 5)))))
       = Inl ShiftCountOutOfRange"
  by (simp add: shl_u32_def)

subsection \<open>Create, GetBits and the conversion\<close>

text \<open>
  Claim C7. For every type but the empty schema (which has no \<^verbatim>\<open>Create\<close>) and every
  64-bit \<open>x\<close>, \<^verbatim>\<open>Create(x)\<close> checks nothing and returns the value whose \<^verbatim>\<open>m_fields\<close>
  is \<open>x\<close>; \<^verbatim>\<open>Create(x).GetBits()\<close> is \<open>x\<close>.
\<close>

theorem Create_GetBits:
  assumes "T \<noteq> PackedVoid 0"
  shows "Create T x = Inr \<lparr>ptype = T, m_fields = x\<rparr> \<and> and_then (Create T x) GetBits = Inr x"
  using assms by (simp add: Create_def GetBits_def)

theorem Create_GetBits_witness:
  "PackedRest 4 (PackedVoid 3) \<noteq> PackedVoid 0
   \<and> and_then (Create (PackedRest 4 (PackedVoid 3)) 18446744073709551615) GetBits
       = Inr 18446744073709551615"
  using Create_GetBits [of "PackedRest 4 (PackedVoid 3)" 18446744073709551615]
  by (simp add: Create_def GetBits_def)

text \<open>
  Claim C8. For every value of a type other than the empty schema, the conversion to
  \<^verbatim>\<open>unsigned __int64\<close> returns what \<^verbatim>\<open>GetBits()\<close> returns, and that is \<^verbatim>\<open>m_fields\<close>
  as it is.
\<close>

theorem conversion_eq_GetBits:
  assumes "ptype p \<noteq> PackedVoid 0"
  shows "operator_unsigned_int64 p = GetBits p \<and> GetBits p = Inr (m_fields p)"
  using assms by (simp add: operator_unsigned_int64_def GetBits_def)

theorem conversion_eq_GetBits_witness:
  "ptype \<lparr>ptype = PackedRest 4 (PackedVoid 3), m_fields = 89\<rparr> \<noteq> PackedVoid 0
   \<and> operator_unsigned_int64 \<lparr>ptype = PackedRest 4 (PackedVoid 3), m_fields = 89\<rparr> = Inr 89
   \<and> GetBits \<lparr>ptype = PackedRest 4 (PackedVoid 3), m_fields = 89\<rparr> = Inr 89"
  using conversion_eq_GetBits [of "\<lparr>ptype = PackedRest 4 (PackedVoid 3), m_fields = 89\<rparr>"]
  by simp

subsection \<open>What a call does to its receiver\<close>

text \<open>On the store the member functions compute what they compute on values.\<close>

lemma Create_st_Create:
  "Create_st T v s =
     (case Create T v of Inl e \<Rightarrow> (Inl e, s) | Inr q \<Rightarrow> (Inr (length s), s @ [q]))"
  by (simp add: Create_st_def Create_def new_local_def assign_m_fields_def)

lemma Push_st_Push:
  assumes "this < length s"
  shows "Push_st this X v s =
     (case Push (s ! this) X v of Inl e \<Rightarrow> (Inl e, s) | Inr q \<Rightarrow> (Inr (length s), s @ [q]))"
  using assms
  by (simp add: Push_st_def Push_def object_at_def Create_st_Create and_then_def
      split: sum.splits)

lemma Pop_st_Pop:
  assumes "this < length s"
  shows "Pop_st this s =
     (case Pop (s ! this) of Inl e \<Rightarrow> (Inl e, s) | Inr q \<Rightarrow> (Inr (length s), s @ [q]))"
  using assms
  by (simp add: Pop_st_def Pop_def object_at_def Create_st_Create and_then_def
      split: sum.splits schema.splits)

text \<open>What a call that makes an object, or fails, does to the store.\<close>

lemma Create_st_store_extended: "store_extended s (Create_st T v s)"
  by (simp add: store_extended_def Create_st_def new_local_def assign_m_fields_def)

lemma Push_st_store_extended: "store_extended s (Push_st this X v s)"
  by (simp add: Push_st_def Create_st_store_extended split: sum.splits)
    (simp add: store_extended_def)

lemma Pop_st_store_extended: "store_extended s (Pop_st this s)"
  by (simp add: Pop_st_def Create_st_store_extended split: sum.splits schema.splits)
    (simp add: store_extended_def)

text \<open>The calls that have a result are those that \<open>call_defined\<close> describes.\<close>

lemma invoke_result:
  assumes "this < length s"
  shows "call_defined c (s ! this) \<longleftrightarrow> (\<exists>x. fst (invoke c this s) = Inr x)"
proof (cases c)
  case (CallPush X v)
  with assms show ?thesis
    by (auto simp: Push_st_Push Push_def Create_def shl_u64_def and_then_def
        split: sum.splits if_splits)
next
  case CallPop
  with assms show ?thesis
    by (auto simp: Pop_st_Pop Pop_def Create_def shr_u64_def and_then_def
        split: sum.splits if_splits schema.splits)
next
  case CallBack
  with assms show ?thesis
    by (simp add: Back_st_def object_at_def Back_def)
next
  case CallGetBits
  with assms show ?thesis
    by (simp add: GetBits_st_def object_at_def GetBits_def)
next
  case CallConversion
  with assms show ?thesis
    by (simp add: operator_unsigned_int64_st_def object_at_def operator_unsigned_int64_def)
qed

text \<open>
  Claim C9. Whatever member function is called on an object \<open>this\<close> of the store
  (\<^verbatim>\<open>Push\<close>, \<^verbatim>\<open>Pop\<close>, \<^verbatim>\<open>Back\<close>, \<^verbatim>\<open>GetBits\<close> or the conversion) and whatever
  comes of the call, after it the object is what it was, its \<^verbatim>\<open>m_fields\<close> included, and
  so is every other object that was there. \<^verbatim>\<open>Push\<close> and \<^verbatim>\<open>Pop\<close> return a new
  object, one more in the store and not the receiver; the other three leave the store as it
  was. \<^verbatim>\<open>Back\<close>, \<^verbatim>\<open>GetBits\<close> and the conversion have a result on every receiver of a
  type that declares them, \<^verbatim>\<open>Push\<close> and \<^verbatim>\<open>Pop\<close> whenever they compile and shift by
  less than 64.
\<close>

theorem invoke_frame:
  assumes "this < length s" and "invoke c this s = (r, s')"
  shows "m_fields (s' ! this) = m_fields (s ! this) \<and> s' ! this = s ! this
       \<and> take (length s) s' = s
       \<and> (case r of
             Inl e \<Rightarrow> s' = s
           | Inr (Object a) \<Rightarrow> a = length s \<and> a \<noteq> this \<and> length s' = Suc (length s)
           | Inr (Bits b) \<Rightarrow> s' = s)
       \<and> (call_defined c (s ! this) \<longleftrightarrow> (\<exists>x. r = Inr x))"
proof -
  have shape: "take (length s) s' = s
       \<and> (case r of
             Inl e \<Rightarrow> s' = s
           | Inr (Object a) \<Rightarrow> a = length s \<and> length s' = Suc (length s)
           | Inr (Bits b) \<Rightarrow> s' = s)"
  proof (cases c)
    case (CallPush X v)
    with assms(2) Push_st_store_extended [of s this X v] show ?thesis
      by (auto simp: store_extended_def and_then_def split: prod.splits sum.splits)
  next
    case CallPop
    with assms(2) Pop_st_store_extended [of s this] show ?thesis
      by (auto simp: store_extended_def and_then_def split: prod.splits sum.splits)
  next
    case CallBack
    with assms(2) show ?thesis
      by (auto simp: Back_st_def and_then_def split: sum.splits)
  next
    case CallGetBits
    with assms(2) show ?thesis
      by (auto simp: GetBits_st_def and_then_def split: sum.splits)
  next
    case CallConversion
    with assms(2) show ?thesis
      by (auto simp: operator_unsigned_int64_st_def and_then_def split: sum.splits)
  qed
  then have "take (length s) s' ! this = s ! this"
    by simp
  with assms(1) have same: "s' ! this = s ! this"
    by simp
  from invoke_result [OF assms(1), of c] assms(2)
  have result: "call_defined c (s ! this) \<longleftrightarrow> (\<exists>x. r = Inr x)"
    by simp
  from shape same assms(1) have "m_fields (s' ! this) = m_fields (s ! this) \<and> s' ! this = s ! this
       \<and> take (length s) s' = s
       \<and> (case r of
             Inl e \<Rightarrow> s' = s
           | Inr (Object a) \<Rightarrow> a = length s \<and> a \<noteq> this \<and> length s' = Suc (length s)
           | Inr (Bits b) \<Rightarrow> s' = s)"
    by (auto split: sum.splits returned.splits)
  with result show ?thesis
    by blast
qed

text \<open>
  \<^verbatim>\<open>Push<2>(1)\<close> on the value with the raw bits 89: the new object has the raw bits
  357, the receiver still 89. \<^verbatim>\<open>Back()\<close> on a value whose last field has 32 bits: it
  returns the raw bits and the store is as before.
\<close>

theorem invoke_frame_witness:
  "(0 :: nat) < length [\<lparr>ptype = PackedRest 4 (PackedVoid 3), m_fields = 89\<rparr>]
   \<and> invoke (CallPush 2 1) 0 [\<lparr>ptype = PackedRest 4 (PackedVoid 3), m_fields = 89\<rparr>]
       = (Inr (Object 1), [\<lparr>ptype = PackedRest 4 (PackedVoid 3), m_fields = 89\<rparr>,
                          \<lparr>ptype = PackedRest 2 (PackedRest 4 (PackedVoid 3)), m_fields = 357\<rparr>])
   \<and> m_fields ([\<lparr>ptype = PackedRest 4 (PackedVoid 3), m_fields = 89\<rparr>,
       \<lparr>ptype = PackedRest 2 (PackedRest 4 (PackedVoid 3)), m_fields = 357\<rparr>] ! 0)
       = m_fields ([\<lparr>ptype = PackedRest 4 (PackedVoid 3), m_fields = 89\<rparr>] ! 0)
   \<and> call_defined (CallPush 2 1) \<lparr>ptype = PackedRest 4 (PackedVoid 3), m_fields = 89\<rparr>
   \<and> (0 :: nat) < length [\<lparr>ptype = PackedRest 32 (PackedVoid 3), m_fields = 21474836487\<rparr>]
   \<and> invoke CallBack 0 [\<lparr>ptype = PackedRest 32 (PackedVoid 3), m_fields = 21474836487\<rparr>]
       = (Inr (Bits 21474836487),
          [\<lparr>ptype = PackedRest 32 (PackedVoid 3), m_fields = 21474836487\<rparr>])"
  using invoke_frame [of 0 "[\<lparr>ptype = PackedRest 4 (PackedVoid 3), m_fields = 89\<rparr>]"
      "CallPush 2 1" "Inr (Object 1)"
      "[\<lparr>ptype = PackedRest 4 (PackedVoid 3), m_fields = 89\<rparr>,
        \<lparr>ptype = PackedRest 2 (PackedRest 4 (PackedVoid 3)), m_fields = 357\<rparr>]"]
    invoke_frame [of 0 "[\<lparr>ptype = PackedRest 32 (PackedVoid 3), m_fields = 21474836487\<rparr>]"
      CallBack "Inr (Bits 21474836487)"
      "[\<lparr>ptype = PackedRest 32 (PackedVoid 3), m_fields = 21474836487\<rparr>]"]
  by (simp add: Push_st_def Back_st_def Back_def Back_mask_def shl_int_def object_at_def
      shl_u64_def Create_st_def new_local_def assign_m_fields_def)

subsection \<open>Back after Push\<close>

text \<open>
  Claim C10, as the code has it. For a width \<open>X\<close> from 1 to 31, every value \<open>p\<close> on
  which \<^verbatim>\<open>Push<X>\<close> passes the \<^verbatim>\<open>static_assert\<close> and every 64-bit \<open>v\<close>:
  \<^verbatim>\<open>p.Push<X>(v)\<close> returns a value, its \<^verbatim>\<open>Back()\<close> is \<open>v mod 2 ^ X\<close>, and its raw
  bits hold \<open>v\<close> as it came, not masked.
\<close>

theorem Back_of_Push_truncates:
  assumes "1 \<le> X" and "X \<le> 31" and "Push_static_assert (ptype p) X"
  shows "and_then (Push p X v) Back = Inr (word_of_nat (unat v mod 2 ^ unat X))
       \<and> and_then (Push p X v) GetBits
           = Inr (if ptype p = PackedVoid 0 then v else push_bit (unat X) (m_fields p) OR v)"
proof -
  from assms(1) have nz: "X \<noteq> 0"
    by auto
  from assms(2) have lt32: "X < 32" and lt64: "X < 64"
    by (simp_all add: word_le_nat_alt word_less_nat_alt)
  from nz lt64 have "if ptype p = PackedVoid 0 then X \<noteq> 0 else X < 64"
    by simp
  with assms(3) have pushed: "Push p X v =
    Inr \<lparr>ptype = (if ptype p = PackedVoid 0 then PackedVoid X else PackedRest X (ptype p)),
         m_fields = (if ptype p = PackedVoid 0 then v
                     else push_bit (unat X) (m_fields p) OR v)\<rparr>"
    by (rule Push_accepted)
  have masked: "and_then (Push p X v) Back = Inr (take_bit (unat X) v)"
    using nz by (simp add: pushed Back_def Back_mask_small [OF lt32] take_bit_push_bit
        flip: take_bit_eq_mask)
  have raw: "and_then (Push p X v) GetBits
           = Inr (if ptype p = PackedVoid 0 then v else push_bit (unat X) (m_fields p) OR v)"
    using nz by (simp add: pushed GetBits_def)
  from masked raw show ?thesis
    by (simp only: word_of_nat_unat_mod simp_thms)
qed

text \<open>\<^verbatim>\<open>Empty.Push<3>(9)\<close> has the raw bits 9, and its \<^verbatim>\<open>Back()\<close> is 1.\<close>

theorem Back_of_Push_truncates_witness:
  "(1 :: u32) \<le> 3 \<and> (3 :: u32) \<le> 31 \<and> Push_static_assert (ptype Empty) 3
   \<and> and_then (Push Empty 3 9) GetBits = Inr 9
   \<and> and_then (Push Empty 3 9) Back = Inr 1"
  using Back_of_Push_truncates [of 3 Empty 9]
  by (simp add: Empty_def)

text \<open>
  For every value \<open>p\<close> the claim fails: a value of eight fields takes no field of two
  bits, the \<^verbatim>\<open>static_assert\<close> refuses the push.
\<close>

theorem Back_of_Push_eight_fields_counterexample:
  "c_fieldCount (PackedRest 1 (PackedRest 1 (PackedRest 1 (PackedRest 1
      (PackedRest 1 (PackedRest 1 (PackedRest 1 (PackedVoid 1)))))))) = 8
   \<and> and_then
       (Push \<lparr>ptype = PackedRest 1 (PackedRest 1 (PackedRest 1 (PackedRest 1
                (PackedRest 1 (PackedRest 1 (PackedRest 1 (PackedVoid 1))))))),
              m_fields = 255\<rparr> 2 3) Back
     = Inl StaticAssertFailed"
  by (simp add: Push_def)

end
